theory Spec2Isabelle
  imports Complex_Main
begin

section \<open>Color area state (useColorAreaState)\<close>

subsection \<open>Colors and channels\<close>

text \<open>
  The channel names of the \<open>ColorChannel\<close> union type of \<open>@react-types/color\<close>: the
  channels of the RGB, HSB and HSL formats, and alpha. JavaScript numbers are modelled as
  real numbers. Comparisons, \<open>Math.min\<close> and \<open>Math.max\<close> of doubles are those of the
  reals; sums, differences and products of doubles are rounded, which the model leaves
  out. On integers of magnitude at most \<open>2^53\<close> the addition and subtraction of doubles
  are exact, so there the model computes what the code computes; a property that needs
  exact arithmetic is stated for such values only.
\<close>

datatype ColorChannel = hue | saturation | brightness | lightness | red | green | blue | alpha

record ColorChannelRange =
  minValue :: real
  maxValue :: real
  step :: real

text \<open>
  Modelled from the spec: the \<open>Color\<close> class is imported from the module \<open>./Color\<close>.
  The spec describes it as an immutable value object with named
  channels, each having a numeric range \<open>{minValue, maxValue, step}\<close>, and
  \<open>withChannelValue(channel, v)\<close> returning a new color with one channel replaced and all
  other channels unchanged.
\<close>

record Color =
  channelValue :: "ColorChannel \<Rightarrow> real"
  channelRange :: "ColorChannel \<Rightarrow> ColorChannelRange"

definition getChannelValue :: "Color \<Rightarrow> ColorChannel \<Rightarrow> real" where
  "getChannelValue c ch = channelValue c ch"

definition getChannelRange :: "Color \<Rightarrow> ColorChannel \<Rightarrow> ColorChannelRange" where
  "getChannelRange c ch = channelRange c ch"

definition withChannelValue :: "Color \<Rightarrow> ColorChannel \<Rightarrow> real \<Rightarrow> Color" where
  "withChannelValue c ch v = c\<lparr>channelValue := (channelValue c)(ch := v)\<rparr>"

text \<open>
  Modelled from the spec: \<open>clamp\<close> and \<open>snapValueToStep\<close> are imported from
  \<open>@react-aria/utils\<close>. \<open>clamp\<close> restricts a value to \<open>[min, max]\<close>; \<open>snapValueToStep\<close>
  rounds to the nearest multiple of the step (halves upwards, as \<open>Math.round\<close> does) and
  keeps the result within the range: below the minimum it takes the smallest multiple in
  the range, above the maximum the largest one. The step is not \<open>0\<close> where it is called:
  lines 116 to 122 replace such a step.
\<close>

definition clamp :: "real \<Rightarrow> real \<Rightarrow> real \<Rightarrow> real" where
  "clamp v lo hi = min (max v lo) hi"

definition snapValueToStep :: "real \<Rightarrow> real \<Rightarrow> real \<Rightarrow> real \<Rightarrow> real" where
  "snapValueToStep v lo hi st =
     (let snapped = of_int (round (v / st)) * st
      in if snapped < lo then of_int \<lceil>lo / st\<rceil> * st
         else if hi < snapped then of_int \<lfloor>hi / st\<rfloor> * st
         else snapped)"

subsection \<open>Channel resolution\<close>

text \<open>
  \<open>RGBSet\<close> is a JavaScript \<open>Set\<close>, which iterates in insertion order; \<open>difference\<close> filters
  that order, so both are lists here.
\<close>

definition RGBSet :: "ColorChannel list" where
  "RGBSet = [red, green, blue]"

definition difference :: "ColorChannel list \<Rightarrow> ColorChannel list \<Rightarrow> ColorChannel list" where
  "difference a b = filter (\<lambda>x. x \<notin> set b) a"

record Channels =
  xChannel :: ColorChannel
  yChannel :: ColorChannel
  zChannel :: "ColorChannel option"

text \<open>
  Lines 80 to 105: the two \<open>switch\<close> statements. An absent property is \<open>None\<close>. Every
  branch leaves both channels defined.
\<close>

fun resolveXY :: "ColorChannel option \<Rightarrow> ColorChannel option \<Rightarrow> ColorChannel \<times> ColorChannel" where
  "resolveXY None y =
     (case y of
        Some red \<Rightarrow> (blue, red)
      | Some green \<Rightarrow> (blue, green)
      | Some blue \<Rightarrow> (red, blue)
      | _ \<Rightarrow> (blue, green))"
| "resolveXY (Some x) None =
     (case x of
        red \<Rightarrow> (red, green)
      | blue \<Rightarrow> (blue, red)
      | _ \<Rightarrow> (blue, green))"
| "resolveXY (Some x) (Some y) = (x, y)"

text \<open>
  Lines 106 to 110: \<open>zChannel\<close> is the first element of \<open>RGBSet\<close> without the two axis
  channels, or \<open>undefined\<close> (\<open>None\<close>) when nothing is left.
\<close>

definition resolveChannels :: "ColorChannel option \<Rightarrow> ColorChannel option \<Rightarrow> Channels" where
  "resolveChannels xc yc =
     (let (x, y) = resolveXY xc yc;
          xyChannels = [x, y]
      in \<lparr>xChannel = x, yChannel = y,
          zChannel = (case difference RGBSet xyChannels of [] \<Rightarrow> None | z # _ \<Rightarrow> Some z)\<rparr>)"

subsection \<open>Properties and hook cells\<close>

text \<open>
  \<open>ColorAreaProps\<close>: an optional property is an \<open>option\<close>. \<open>onChangeEnd\<close> records whether the
  callback was supplied; its calls are logged in \<open>emitted\<close> below. A color property is a
  \<open>Color\<close> already: \<open>normalizeColor\<close> returns a \<open>Color\<close> as it is, and parsing a string is
  left to the \<open>Color\<close> module.
\<close>

record ColorAreaProps =
  "value" :: "Color option"
  defaultValue :: "Color option"
  xChannelProp :: "ColorChannel option"
  yChannelProp :: "ColorChannel option"
  xChannelStepProp :: "real option"
  yChannelStepProp :: "real option"
  onChangeEnd :: bool

datatype Notification = Change Color | ChangeEnd Color

text \<open>
  Modelled from the spec: React's hooks and \<open>useControlledState\<close> (from
  \<open>@react-stately/utils\<close>) are defined in other packages. The cells below are what the
  hooks keep for one mounted component between renders: the state cell of
  \<open>useControlledState\<close>, the \<open>current\<close> fields of the two \<open>useRef\<close> objects, and the
  \<open>useState\<close> flag. \<open>emitted\<close> is the sequence of calls of the change notifier and of the
  end-of-drag callback. The controlled-value collaborator is called on every committed
  mutation and owns the value when the component is uncontrolled.
\<close>

record HookCells =
  stateValue :: Color
  valueRef :: Color
  draggingRef :: bool
  draggingState :: bool
  emitted :: "Notification list"

text \<open>
  The first render creates the cells. \<open>DEFAULT_COLOR\<close> is the parsed constant of line 62,
  a parameter because the parser belongs to the \<open>Color\<close> module (lines 72 to 77).
\<close>

definition mount :: "Color \<Rightarrow> ColorAreaProps \<Rightarrow> HookCells" where
  "mount DEFAULT_COLOR props =
     (let dv = (if value props = None \<and> defaultValue props = None
                then Some DEFAULT_COLOR else defaultValue props);
          initial = (case value props of
                       Some v \<Rightarrow> v
                     | None \<Rightarrow> (case dv of Some d \<Rightarrow> d | None \<Rightarrow> DEFAULT_COLOR))
      in \<lparr>stateValue = initial, valueRef = initial, draggingRef = False,
          draggingState = False, emitted = []\<rparr>)"

text \<open>
  What one call of \<open>useColorAreaState\<close> creates: the local variables its returned methods
  close over. \<open>isDraggingRef\<close> is the local variable of line 125.
\<close>

record ColorAreaState =
  props :: ColorAreaProps
  channels :: Channels
  xChannelStep :: real
  yChannelStep :: real
  color :: Color
  xValue :: real
  yValue :: real
  isDraggingRef :: bool
  isDragging :: bool

text \<open>
  One render (lines 69 to 131). The destructuring default of line 70 makes an absent step
  \<open>1\<close>; lines 116 to 122 replace a falsy step (\<open>0\<close>) with the channel's own step. Line 78
  writes the rendered color to \<open>valueRef\<close>. Line 125 reads the \<open>current\<close> field of the
  \<open>useRef(false)\<close> object into a local variable; nothing ever writes that field.
  Lines 111 to 114 change nothing, since both channels are defined by then.
\<close>

definition useColorAreaState :: "ColorAreaProps \<Rightarrow> HookCells \<Rightarrow> ColorAreaState \<times> HookCells" where
  "useColorAreaState ps hs =
     (let c = (case value ps of Some v \<Rightarrow> v | None \<Rightarrow> stateValue hs);
          hs' = hs\<lparr>valueRef := c\<rparr>;
          chans = resolveChannels (xChannelProp ps) (yChannelProp ps);
          xs0 = (case xChannelStepProp ps of None \<Rightarrow> 1 | Some v \<Rightarrow> v);
          ys0 = (case yChannelStepProp ps of None \<Rightarrow> 1 | Some v \<Rightarrow> v);
          xs = (if xs0 = 0 then step (getChannelRange c (xChannel chans)) else xs0);
          ys = (if ys0 = 0 then step (getChannelRange c (yChannel chans)) else ys0)
      in (\<lparr>props = ps, channels = chans, xChannelStep = xs, yChannelStep = ys, color = c,
           xValue = getChannelValue c (xChannel chans),
           yValue = getChannelValue c (yChannel chans),
           isDraggingRef = draggingRef hs', isDragging = draggingState hs'\<rparr>, hs'))"

subsection \<open>The methods of the returned object\<close>

definition setColor :: "ColorAreaState \<Rightarrow> Color \<Rightarrow> HookCells \<Rightarrow> HookCells" where
  "setColor st c hs =
     hs\<lparr>emitted := emitted hs @ [Change c],
        stateValue := (if value (props st) = None then c else stateValue hs)\<rparr>"

definition setValue :: "ColorAreaState \<Rightarrow> Color \<Rightarrow> HookCells \<Rightarrow> HookCells" where
  "setValue st c hs = setColor st c (hs\<lparr>valueRef := c\<rparr>)"

definition setXValue :: "ColorAreaState \<Rightarrow> real \<Rightarrow> HookCells \<Rightarrow> HookCells" where
  "setXValue st v hs = setColor st (withChannelValue (color st) (xChannel (channels st)) v) hs"

definition setYValue :: "ColorAreaState \<Rightarrow> real \<Rightarrow> HookCells \<Rightarrow> HookCells" where
  "setYValue st v hs = setColor st (withChannelValue (color st) (yChannel (channels st)) v) hs"

text \<open>
  Lines 146 to 165. \<open>newColor\<close> starts undefined (\<open>None\<close>); the comparisons of lines 152
  and 157 are made on the mapped values, before they are snapped.
\<close>

definition setColorFromPoint :: "ColorAreaState \<Rightarrow> real \<Rightarrow> real \<Rightarrow> HookCells \<Rightarrow> HookCells" where
  "setColorFromPoint st x y hs =
     (let rx = getChannelRange (color st) (xChannel (channels st));
          ry = getChannelRange (color st) (yChannel (channels st));
          newXValue = minValue rx + clamp x 0 1 * (maxValue rx - minValue rx);
          newYValue = minValue ry + (1 - clamp y 0 1) * (maxValue ry - minValue ry);
          newColor1 =
            (if newXValue \<noteq> xValue st
             then Some (withChannelValue (color st) (xChannel (channels st))
                    (snapValueToStep newXValue (minValue rx) (maxValue rx) (xChannelStep st)))
             else None);
          newColor2 =
            (if newYValue \<noteq> yValue st
             then Some (withChannelValue (case newColor1 of Some c \<Rightarrow> c | None \<Rightarrow> color st)
                    (yChannel (channels st))
                    (snapValueToStep newYValue (minValue ry) (maxValue ry) (yChannelStep st)))
             else newColor1)
      in case newColor2 of Some c \<Rightarrow> setColor st c hs | None \<Rightarrow> hs)"

text \<open>
  Lines 173 to 200; \<open>minStepSize\<close> is \<open>0\<close> when the caller leaves it out. The sum of
  line 177 and the difference of line 191 are the exact ones, which are those of the code
  when the values are integers.
\<close>

definition incrementX :: "ColorAreaState \<Rightarrow> real \<Rightarrow> HookCells \<Rightarrow> HookCells" where
  "incrementX st minStepSize hs =
     (let s = max minStepSize (xChannelStep st);
          r = getChannelRange (color st) (xChannel (channels st))
      in if xValue st < maxValue r then setXValue st (min (xValue st + s) (maxValue r)) hs else hs)"

definition incrementY :: "ColorAreaState \<Rightarrow> real \<Rightarrow> HookCells \<Rightarrow> HookCells" where
  "incrementY st minStepSize hs =
     (let s = max minStepSize (yChannelStep st);
          r = getChannelRange (color st) (yChannel (channels st))
      in if yValue st < maxValue r then setYValue st (min (yValue st + s) (maxValue r)) hs else hs)"

definition decrementX :: "ColorAreaState \<Rightarrow> real \<Rightarrow> HookCells \<Rightarrow> HookCells" where
  "decrementX st minStepSize hs =
     (let s = max minStepSize (xChannelStep st);
          r = getChannelRange (color st) (xChannel (channels st))
      in if xValue st > minValue r then setXValue st (max (xValue st - s) (minValue r)) hs else hs)"

definition decrementY :: "ColorAreaState \<Rightarrow> real \<Rightarrow> HookCells \<Rightarrow> HookCells" where
  "decrementY st minStepSize hs =
     (let s = max minStepSize (yChannelStep st);
          r = getChannelRange (color st) (yChannel (channels st))
      in if yValue st > minValue r then setYValue st (max (yValue st - s) (minValue r)) hs else hs)"

text \<open>
  Lines 201 to 211. The assignment of line 203 changes the local variable of this
  render's closure, so the method returns the closure as well as the cells.
\<close>

definition setDragging :: "ColorAreaState \<Rightarrow> bool \<Rightarrow> HookCells \<Rightarrow> ColorAreaState \<times> HookCells" where
  "setDragging st dragging hs =
     (let wasDragging = isDraggingRef st;
          st' = st\<lparr>isDraggingRef := dragging\<rparr>;
          hs' = (if onChangeEnd (props st) \<and> \<not> dragging \<and> wasDragging
                 then hs\<lparr>emitted := emitted hs @ [ChangeEnd (valueRef hs)]\<rparr> else hs)
      in (st', hs'\<lparr>draggingState := dragging\<rparr>))"

subsection \<open>Scenarios and an example color\<close>

text \<open>
  \<open>incrementX\<close>, then \<open>decrementX\<close> on the object of the next render, and the x value that
  the render after that displays.
\<close>

definition incrementThenDecrementX :: "ColorAreaProps \<Rightarrow> real \<Rightarrow> HookCells \<Rightarrow> real" where
  "incrementThenDecrementX ps m hs =
     (let (st1, hs1) = useColorAreaState ps hs;
          (st2, hs2) = useColorAreaState ps (incrementX st1 m hs1);
          (st3, hs3) = useColorAreaState ps (decrementX st2 m hs2)
      in xValue st3)"

text \<open>
  \<open>setDragging(true)\<close> on the object of one render, the render that the state update of
  line 210 causes, and \<open>setDragging(false)\<close> on the object of that render.
\<close>

definition dragThenRelease :: "ColorAreaProps \<Rightarrow> HookCells \<Rightarrow> HookCells" where
  "dragThenRelease ps hs =
     (let (st1, hs1) = useColorAreaState ps hs;
          (st1', hs1') = setDragging st1 True hs1;
          (st2, hs2) = useColorAreaState ps hs1';
          (st2', hs2') = setDragging st2 False hs2
      in hs2')"

text \<open>
  An RGB color for the concrete evaluations: red 250, green 100, blue 50, alpha 1, with the
  ranges \<open>0\<close> to \<open>255\<close> in steps of \<open>1\<close> for the three color channels and \<open>0\<close> to \<open>1\<close> in
  steps of \<open>0.01\<close> for alpha.
\<close>

definition exampleRange :: "ColorChannel \<Rightarrow> ColorChannelRange" where
  "exampleRange ch =
     (case ch of
        hue \<Rightarrow> \<lparr>minValue = 0, maxValue = 360, step = 1\<rparr>
      | alpha \<Rightarrow> \<lparr>minValue = 0, maxValue = 1, step = 1 / 100\<rparr>
      | red \<Rightarrow> \<lparr>minValue = 0, maxValue = 255, step = 1\<rparr>
      | green \<Rightarrow> \<lparr>minValue = 0, maxValue = 255, step = 1\<rparr>
      | blue \<Rightarrow> \<lparr>minValue = 0, maxValue = 255, step = 1\<rparr>
      | _ \<Rightarrow> \<lparr>minValue = 0, maxValue = 100, step = 1\<rparr>)"

definition exampleColor :: Color where
  "exampleColor =
     \<lparr>channelValue =
        (\<lambda>ch. case ch of red \<Rightarrow> 250 | green \<Rightarrow> 100 | blue \<Rightarrow> 50 | alpha \<Rightarrow> 1 | _ \<Rightarrow> 0),
      channelRange = exampleRange\<rparr>"

text \<open>An uncontrolled color area on the red and green channels, with no steps supplied.\<close>

definition exampleProps :: ColorAreaProps where
  "exampleProps =
     \<lparr>value = None, defaultValue = Some exampleColor, xChannelProp = Some red,
      yChannelProp = None, xChannelStepProp = None, yChannelStepProp = None,
      onChangeEnd = True\<rparr>"

text \<open>The same with both channels supplied: alpha on the x axis, red on the y axis.\<close>

definition alphaProps :: ColorAreaProps where
  "alphaProps = exampleProps\<lparr>xChannelProp := Some alpha, yChannelProp := Some red\<rparr>"

definition exampleState :: ColorAreaState where
  "exampleState = fst (useColorAreaState exampleProps (mount exampleColor exampleProps))"

definition exampleCells :: HookCells where
  "exampleCells = snd (useColorAreaState exampleProps (mount exampleColor exampleProps))"

text \<open>The example with a negative step of \<open>-251\<close> supplied for the x axis.\<close>

definition negativeStepProps :: ColorAreaProps where
  "negativeStepProps = exampleProps\<lparr>xChannelStepProp := Some (- 251)\<rparr>"

definition negativeStepState :: ColorAreaState where
  "negativeStepState =
     fst (useColorAreaState negativeStepProps (mount exampleColor negativeStepProps))"

definition negativeStepCells :: HookCells where
  "negativeStepCells =
     snd (useColorAreaState negativeStepProps (mount exampleColor negativeStepProps))"

section \<open>Submenu trigger (useSubMenuTrigger)\<close>

subsection \<open>The menu state and the timer environment\<close>

datatype FocusStrategy = FocusFirst | FocusLast

datatype PointerType = mouse | pen | touch | keyboard | virtual

datatype Direction = ltr | rtl

text \<open>
  Modelled from the spec: \<open>SubMenuTriggerState\<close> is imported from \<open>@react-stately/menu\<close>.
  The spec gives it \<open>open(focusStrategy?)\<close>, \<open>close()\<close>, \<open>closeAll()\<close> and \<open>isOpen\<close>, where
  \<open>closeAll\<close> closes the entire menu hierarchy (the root and all intermediate submenus),
  not just this level. \<open>ancestorsOpen\<close> stands for the menus above this trigger.
\<close>

record SubMenuTriggerState =
  isOpen :: bool
  focusStrategy :: "FocusStrategy option"
  ancestorsOpen :: bool

definition state_open :: "FocusStrategy option \<Rightarrow> SubMenuTriggerState \<Rightarrow> SubMenuTriggerState" where
  "state_open fs st = st\<lparr>isOpen := True, focusStrategy := fs\<rparr>"

definition state_close :: "SubMenuTriggerState \<Rightarrow> SubMenuTriggerState" where
  "state_close st = st\<lparr>isOpen := False\<rparr>"

definition state_closeAll :: "SubMenuTriggerState \<Rightarrow> SubMenuTriggerState" where
  "state_closeAll st = st\<lparr>isOpen := False, ancestorsOpen := False\<rparr>"

text \<open>
  One trigger instance together with its environment. \<open>openTimeout\<close> is the \<open>current\<close>
  field of the ref of line 49. \<open>timers\<close> are the timers the host has pending, each with
  its handle and the time it is due; \<open>now\<close> is the clock in milliseconds. Handles are
  positive numbers, as \<open>setTimeout\<close> returns them, so a handle is truthy unless it is \<open>0\<close>.
  \<open>propagated\<close> counts the calls of \<open>continuePropagation\<close>.
\<close>

record Trigger =
  state :: SubMenuTriggerState
  direction :: Direction
  openTimeout :: "nat option"
  timers :: "(nat \<times> nat) list"
  nextHandle :: nat
  now :: nat
  propagated :: nat

definition truthy :: "nat option \<Rightarrow> bool" where
  "truthy h = (case h of None \<Rightarrow> False | Some n \<Rightarrow> n \<noteq> 0)"

definition setTimeout :: "nat \<Rightarrow> Trigger \<Rightarrow> nat \<times> Trigger" where
  "setTimeout delay w =
     (nextHandle w,
      w\<lparr>timers := timers w @ [(nextHandle w, now w + delay)], nextHandle := nextHandle w + 1\<rparr>)"

definition clearTimeout :: "nat \<Rightarrow> Trigger \<Rightarrow> Trigger" where
  "clearTimeout h w = w\<lparr>timers := filter (\<lambda>p. fst p \<noteq> h) (timers w)\<rparr>"

subsection \<open>The handlers\<close>

text \<open>Lines 50 to 71.\<close>

definition cancelOpenTimeout :: "Trigger \<Rightarrow> Trigger" where
  "cancelOpenTimeout w =
     (case openTimeout w of
        Some h \<Rightarrow> if h \<noteq> 0 then (clearTimeout h w)\<lparr>openTimeout := None\<rparr> else w
      | None \<Rightarrow> w)"

definition onSubmenuOpen :: "FocusStrategy option \<Rightarrow> Trigger \<Rightarrow> Trigger" where
  "onSubmenuOpen fs w = (let w' = cancelOpenTimeout w in w'\<lparr>state := state_open fs (state w')\<rparr>)"

definition onSubMenuClose :: "Trigger \<Rightarrow> Trigger" where
  "onSubMenuClose w = (let w' = cancelOpenTimeout w in w'\<lparr>state := state_close (state w')\<rparr>)"

definition unmount :: "Trigger \<Rightarrow> Trigger" where
  "unmount w = cancelOpenTimeout w"

definition continuePropagation :: "Trigger \<Rightarrow> Trigger" where
  "continuePropagation w = w\<lparr>propagated := propagated w + 1\<rparr>"

text \<open>
  Lines 78 to 99, the key handler of the submenu. Line 88 names \<open>onSubMenuClose\<close> without
  calling it, so both branches of that test leave the trigger as it is.
\<close>

definition subMenuKeyDown :: "string \<Rightarrow> Trigger \<Rightarrow> Trigger" where
  "subMenuKeyDown key w =
     (if key = ''ArrowLeft'' then (if direction w = ltr then onSubMenuClose w else w)
      else if key = ''ArrowRight'' then (if direction w = rtl then w else w)
      else if key = ''Escape'' then w\<lparr>state := state_closeAll (state w)\<rparr>
      else continuePropagation w)"

text \<open>
  Lines 103 to 120, the key handler of the trigger. The cases fall through: \<open>ArrowRight\<close>
  runs the \<open>ArrowLeft\<close> case and the default case after its own.
\<close>

definition triggerKeyDown :: "string \<Rightarrow> Trigger \<Rightarrow> Trigger" where
  "triggerKeyDown key w =
     (let w1 = (if key = ''ArrowRight'' \<and> direction w = ltr
                then onSubmenuOpen (Some FocusFirst) w else w);
          w2 = (if (key = ''ArrowRight'' \<or> key = ''ArrowLeft'') \<and> direction w1 = rtl
                then onSubmenuOpen (Some FocusFirst) w1 else w1)
      in continuePropagation w2)"

text \<open>Lines 123 to 134.\<close>

definition onPressStart :: "PointerType \<Rightarrow> Trigger \<Rightarrow> Trigger" where
  "onPressStart pointerType w =
     (if pointerType = virtual \<or> pointerType = keyboard
      then onSubmenuOpen (Some FocusFirst) w else w)"

definition onPress :: "PointerType \<Rightarrow> Trigger \<Rightarrow> Trigger" where
  "onPress pointerType w = (if pointerType = touch then onSubmenuOpen None w else w)"

text \<open>Lines 137 to 148. The timer's callback is \<open>onSubmenuOpen()\<close>, run by \<open>fireTimer\<close>.\<close>

definition onHoverChange :: "bool \<Rightarrow> Trigger \<Rightarrow> Trigger" where
  "onHoverChange isHovered w =
     (if isHovered \<and> \<not> isOpen (state w)
      then (if \<not> truthy (openTimeout w)
            then (let (h, w') = setTimeout 200 w in w'\<lparr>openTimeout := Some h\<rparr>)
            else w)
      else if \<not> isHovered then cancelOpenTimeout w
      else w)"

text \<open>
  The host runs a pending timer once, when it is due; a timer that was cleared is not
  pending and does not run. \<open>advance d\<close> lets \<open>d\<close> milliseconds pass and runs the timers
  that are due by then, in the order they were set.
\<close>

definition fireTimer :: "nat \<Rightarrow> Trigger \<Rightarrow> Trigger" where
  "fireTimer h w =
     (if h \<in> fst ` set (timers w)
      then onSubmenuOpen None (w\<lparr>timers := filter (\<lambda>p. fst p \<noteq> h) (timers w)\<rparr>)
      else w)"

definition advance :: "nat \<Rightarrow> Trigger \<Rightarrow> Trigger" where
  "advance d w =
     (let w1 = w\<lparr>now := now w + d\<rparr>;
          due = map fst (filter (\<lambda>p. snd p \<le> now w1) (timers w1))
      in foldl (\<lambda>v h. fireTimer h v) w1 due)"

subsection \<open>Event sequences\<close>

datatype Event =
    HoverChange bool
  | PressStart PointerType
  | Press PointerType
  | TriggerKeyDown string
  | SubMenuKeyDown string
  | Unmount
  | Advance nat

fun handle :: "Event \<Rightarrow> Trigger \<Rightarrow> Trigger" where
  "handle (HoverChange b) w = onHoverChange b w"
| "handle (PressStart p) w = onPressStart p w"
| "handle (Press p) w = onPress p w"
| "handle (TriggerKeyDown k) w = triggerKeyDown k w"
| "handle (SubMenuKeyDown k) w = subMenuKeyDown k w"
| "handle Unmount w = unmount w"
| "handle (Advance d) w = advance d w"

definition run :: "Event list \<Rightarrow> Trigger \<Rightarrow> Trigger" where
  "run evs w = foldl (\<lambda>v e. handle e v) w evs"

definition init :: "Direction \<Rightarrow> Trigger" where
  "init dir =
     \<lparr>state = \<lparr>isOpen = False, focusStrategy = None, ancestorsOpen = True\<rparr>,
      direction = dir, openTimeout = None, timers = [], nextHandle = 1, now = 0,
      propagated = 0\<rparr>"

text \<open>
  The timer discipline: the ref holds the handle of the only pending timer, and a timer
  is pending only while the submenu is closed.
\<close>

definition timer_inv :: "Trigger \<Rightarrow> bool" where
  "timer_inv w \<longleftrightarrow>
     nextHandle w \<noteq> 0 \<and>
     (case openTimeout w of
        None \<Rightarrow> timers w = []
      | Some h \<Rightarrow> h \<noteq> 0 \<and> \<not> isOpen (state w) \<and> map fst (timers w) = [h])"

text \<open>
  The events that leave the state of waiting for the hover delay: hover-exit, the
  immediate opens by keyboard, screen reader and touch, the close key of the submenu, and
  unmount.
\<close>

definition cancelling :: "Direction \<Rightarrow> Event \<Rightarrow> bool" where
  "cancelling dir e \<longleftrightarrow>
     e = HoverChange False \<or> e = PressStart keyboard \<or> e = PressStart virtual \<or> e = Press touch
     \<or> e = TriggerKeyDown ''ArrowRight'' \<or> (e = TriggerKeyDown ''ArrowLeft'' \<and> dir = rtl)
     \<or> (e = SubMenuKeyDown ''ArrowLeft'' \<and> dir = ltr) \<or> e = Unmount"

text \<open>What a mouse can do to the trigger: hover over it, leave it, and press it.\<close>

fun mouseEvent :: "Event \<Rightarrow> bool" where
  "mouseEvent (HoverChange b) = True"
| "mouseEvent (PressStart p) = (p = mouse)"
| "mouseEvent (Press p) = (p = mouse)"
| "mouseEvent _ = False"

section \<open>Properties of the color area state\<close>

subsection \<open>Helper facts\<close>

lemmas example_defs = exampleState_def exampleCells_def exampleProps_def alphaProps_def
  exampleColor_def exampleRange_def mount_def useColorAreaState_def resolveChannels_def
  RGBSet_def difference_def getChannelValue_def getChannelRange_def

lemma clamp_unit: "0 \<le> clamp v 0 1 \<and> clamp v 0 1 \<le> 1"
  by (simp add: clamp_def)

lemma getChannelValue_with:
  "getChannelValue (withChannelValue c ch v) ch' = (if ch' = ch then v else getChannelValue c ch')"
  by (simp add: getChannelValue_def withChannelValue_def)

lemma emitted_setColor: "emitted (setColor st c hs) = emitted hs @ [Change c]"
  by (simp add: setColor_def)

lemma linear_map_in_range:
  fixes lo hi t :: real
  assumes "lo \<le> hi" "0 \<le> t" "t \<le> 1"
  shows "lo \<le> lo + t * (hi - lo)" "lo + t * (hi - lo) \<le> hi"
proof -
  from assms have "0 \<le> t * (hi - lo)" by simp
  then show "lo \<le> lo + t * (hi - lo)" by simp
  from assms have "t * (hi - lo) \<le> 1 * (hi - lo)" by (intro mult_right_mono) simp_all
  then show "lo + t * (hi - lo) \<le> hi" by simp
qed

lemma exampleState_values:
  "xChannel (channels exampleState) = red" "yChannel (channels exampleState) = green"
  "zChannel (channels exampleState) = Some blue"
  "xValue exampleState = 250" "yValue exampleState = 100"
  "xChannelStep exampleState = 1" "yChannelStep exampleState = 1"
  "color exampleState = exampleColor" "emitted exampleCells = []"
  by (simp_all add: example_defs Let_def)

lemma exampleColor_ranges:
  "getChannelRange exampleColor red = \<lparr>minValue = 0, maxValue = 255, step = 1\<rparr>"
  "getChannelRange exampleColor green = \<lparr>minValue = 0, maxValue = 255, step = 1\<rparr>"
  "getChannelRange exampleColor alpha = \<lparr>minValue = 0, maxValue = 1, step = 1 / 100\<rparr>"
  by (simp_all add: example_defs)

subsection \<open>setColorFromPoint\<close>

text \<open>
  C1, as amended. Each axis input is clamped to \<open>[0, 1]\<close> and mapped linearly into the
  channel's range, with \<open>y\<close> inverted so that \<open>y = 0\<close> gives the maximum. A channel is
  replaced exactly when this mapped value, before snapping, differs from the current
  channel value, and it is replaced by the mapped value snapped to the axis step within
  the range. When neither mapped value differs, the call changes nothing and emits no
  update; otherwise it emits exactly one update.
\<close>

theorem setColorFromPoint_compares_mapped_value:
  assumes xy: "xChannel (channels st) \<noteq> yChannel (channels st)"
    and rx: "rx = getChannelRange (color st) (xChannel (channels st))"
    and ry: "ry = getChannelRange (color st) (yChannel (channels st))"
    and nx: "nx = minValue rx + clamp x 0 1 * (maxValue rx - minValue rx)"
    and ny: "ny = minValue ry + (1 - clamp y 0 1) * (maxValue ry - minValue ry)"
    and hs': "hs' = setColorFromPoint st x y hs"
  shows "(minValue rx \<le> maxValue rx \<longrightarrow> minValue rx \<le> nx \<and> nx \<le> maxValue rx)
       \<and> (minValue ry \<le> maxValue ry \<longrightarrow> minValue ry \<le> ny \<and> ny \<le> maxValue ry)
       \<and> (x \<le> 0 \<longrightarrow> nx = minValue rx) \<and> (1 \<le> x \<longrightarrow> nx = maxValue rx)
       \<and> (y \<le> 0 \<longrightarrow> ny = maxValue ry) \<and> (1 \<le> y \<longrightarrow> ny = minValue ry)
       \<and> (nx = xValue st \<and> ny = yValue st \<longrightarrow> hs' = hs)
       \<and> (nx \<noteq> xValue st \<or> ny \<noteq> yValue st \<longrightarrow>
            (\<exists>c. hs' = setColor st c hs \<and> emitted hs' = emitted hs @ [Change c]
               \<and> getChannelValue c (xChannel (channels st)) =
                   (if nx \<noteq> xValue st
                    then snapValueToStep nx (minValue rx) (maxValue rx) (xChannelStep st)
                    else getChannelValue (color st) (xChannel (channels st)))
               \<and> getChannelValue c (yChannel (channels st)) =
                   (if ny \<noteq> yValue st
                    then snapValueToStep ny (minValue ry) (maxValue ry) (yChannelStep st)
                    else getChannelValue (color st) (yChannel (channels st)))
               \<and> (\<forall>ch. ch \<noteq> xChannel (channels st) \<and> ch \<noteq> yChannel (channels st) \<longrightarrow>
                     getChannelValue c ch = getChannelValue (color st) ch)))"
proof -
  have cx: "0 \<le> clamp x 0 1" "clamp x 0 1 \<le> 1"
    and cy: "0 \<le> 1 - clamp y 0 1" "1 - clamp y 0 1 \<le> 1"
    using clamp_unit[of x] clamp_unit[of y] by simp_all
  have p1: "minValue rx \<le> maxValue rx \<longrightarrow> minValue rx \<le> nx \<and> nx \<le> maxValue rx"
    unfolding nx using linear_map_in_range[OF _ cx] by blast
  have p2: "minValue ry \<le> maxValue ry \<longrightarrow> minValue ry \<le> ny \<and> ny \<le> maxValue ry"
    unfolding ny using linear_map_in_range[OF _ cy] by blast
  have p3: "(x \<le> 0 \<longrightarrow> nx = minValue rx) \<and> (1 \<le> x \<longrightarrow> nx = maxValue rx)"
    unfolding nx by (simp add: clamp_def max_def min_def)
  have p4: "(y \<le> 0 \<longrightarrow> ny = maxValue ry) \<and> (1 \<le> y \<longrightarrow> ny = minValue ry)"
    unfolding ny by (simp add: clamp_def max_def min_def)
  have p5: "nx = xValue st \<and> ny = yValue st \<longrightarrow> hs' = hs"
    unfolding hs' using rx ry nx ny by (simp add: setColorFromPoint_def Let_def)
  have p6: "nx \<noteq> xValue st \<or> ny \<noteq> yValue st \<longrightarrow>
            (\<exists>c. hs' = setColor st c hs \<and> emitted hs' = emitted hs @ [Change c]
               \<and> getChannelValue c (xChannel (channels st)) =
                   (if nx \<noteq> xValue st
                    then snapValueToStep nx (minValue rx) (maxValue rx) (xChannelStep st)
                    else getChannelValue (color st) (xChannel (channels st)))
               \<and> getChannelValue c (yChannel (channels st)) =
                   (if ny \<noteq> yValue st
                    then snapValueToStep ny (minValue ry) (maxValue ry) (yChannelStep st)
                    else getChannelValue (color st) (yChannel (channels st)))
               \<and> (\<forall>ch. ch \<noteq> xChannel (channels st) \<and> ch \<noteq> yChannel (channels st) \<longrightarrow>
                     getChannelValue c ch = getChannelValue (color st) ch))"
    unfolding hs' using rx ry nx ny xy
    by (auto simp add: setColorFromPoint_def Let_def emitted_setColor getChannelValue_with)
  from p1 p2 p3 p4 p5 p6 show ?thesis by blast
qed

text \<open>
  The theorem at the example color, for the point \<open>(2, 1/2)\<close>: \<open>x\<close> is clamped to \<open>1\<close> and
  mapped to the maximum \<open>255\<close>, \<open>y\<close> is mapped to \<open>127.5\<close> and snapped to \<open>128\<close>, and one
  update carries both.
\<close>

theorem setColorFromPoint_compares_mapped_value_witness:
  "xChannel (channels exampleState) \<noteq> yChannel (channels exampleState)
   \<and> minValue (getChannelRange (color exampleState) (xChannel (channels exampleState)))
       \<le> maxValue (getChannelRange (color exampleState) (xChannel (channels exampleState)))
   \<and> (1::real) \<le> 2
   \<and> 0 + clamp 2 0 1 * (255 - 0) = (255::real)
   \<and> (255::real) \<noteq> xValue exampleState
   \<and> (\<exists>c. emitted (setColorFromPoint exampleState 2 (1 / 2) exampleCells) = [Change c]
         \<and> getChannelValue c red = 255 \<and> getChannelValue c green = 128
         \<and> getChannelValue c blue = 50)"
proof -
  have h: "xChannel (channels exampleState) \<noteq> yChannel (channels exampleState)"
    by (simp add: exampleState_values)
  have s: "snapValueToStep 255 0 255 1 = 255" "snapValueToStep (255 / 2) 0 255 1 = 128"
    by (simp_all add: snapValueToStep_def Let_def round_def)
  have c: "clamp 2 0 1 = 1" "clamp (1 / 2) 0 1 = 1 / 2"
    by (simp_all add: clamp_def)
  from setColorFromPoint_compares_mapped_value[where x = 2 and y = "1 / 2" and hs = exampleCells,
      OF h refl refl refl refl refl]
  show ?thesis
    by (simp add: exampleState_values exampleColor_ranges c s)
       (auto simp add: exampleColor_def getChannelValue_def)
qed

text \<open>
  C1 as stated fails: at the point \<open>(417/425, 31/51)\<close> the x input maps to \<open>250.2\<close>, which
  differs from the current \<open>250\<close> and is snapped back to \<open>250\<close>; the y input maps to the
  current \<open>100\<close>. Neither axis value changes, yet an update is emitted, with the red
  channel replaced by the value it already had.
\<close>

theorem setColorFromPoint_emits_unchanged_color:
  "xValue exampleState = 250 \<and> yValue exampleState = 100
   \<and> snapValueToStep (0 + clamp (417 / 425) 0 1 * (255 - 0)) 0 255 1 = 250
   \<and> 0 + (1 - clamp (31 / 51) 0 1) * (255 - 0) = (100::real)
   \<and> emitted exampleCells = []
   \<and> emitted (setColorFromPoint exampleState (417 / 425) (31 / 51) exampleCells)
       = [Change (withChannelValue exampleColor red 250)]
   \<and> withChannelValue exampleColor red 250 = color exampleState"
  by (simp add: exampleState_values exampleColor_ranges setColorFromPoint_def Let_def
      clamp_def snapValueToStep_def round_def setColor_def)
     (simp add: exampleColor_def withChannelValue_def fun_eq_iff)

subsection \<open>Channel resolution\<close>

lemma resolveChannels_None_None:
  "resolveChannels None None = \<lparr>xChannel = blue, yChannel = green, zChannel = Some red\<rparr>"
  by (simp add: resolveChannels_def RGBSet_def difference_def)

lemma resolveChannels_None_Some:
  "resolveChannels None (Some y) =
     (case y of
        red \<Rightarrow> \<lparr>xChannel = blue, yChannel = red, zChannel = Some green\<rparr>
      | green \<Rightarrow> \<lparr>xChannel = blue, yChannel = green, zChannel = Some red\<rparr>
      | blue \<Rightarrow> \<lparr>xChannel = red, yChannel = blue, zChannel = Some green\<rparr>
      | _ \<Rightarrow> \<lparr>xChannel = blue, yChannel = green, zChannel = Some red\<rparr>)"
  by (cases y) (simp_all add: resolveChannels_def RGBSet_def difference_def)

lemma resolveChannels_Some_None:
  "resolveChannels (Some x) None =
     (case x of
        red \<Rightarrow> \<lparr>xChannel = red, yChannel = green, zChannel = Some blue\<rparr>
      | blue \<Rightarrow> \<lparr>xChannel = blue, yChannel = red, zChannel = Some green\<rparr>
      | _ \<Rightarrow> \<lparr>xChannel = blue, yChannel = green, zChannel = Some red\<rparr>)"
  by (cases x) (simp_all add: resolveChannels_def RGBSet_def difference_def)

lemma resolveChannels_Some_Some:
  "xChannel (resolveChannels (Some x) (Some y)) = x"
  "yChannel (resolveChannels (Some x) (Some y)) = y"
  "zChannel (resolveChannels (Some x) (Some y)) =
     (if red \<noteq> x \<and> red \<noteq> y then Some red
      else if green \<noteq> x \<and> green \<noteq> y then Some green
      else if blue \<noteq> x \<and> blue \<noteq> y then Some blue else None)"
  by (simp_all add: resolveChannels_def RGBSet_def difference_def Let_def)

lemma zChannel_defined: "zChannel (resolveChannels xc yc) \<noteq> None"
proof (cases xc)
  case None
  then show ?thesis
    by (cases yc) (simp_all add: resolveChannels_None_None resolveChannels_None_Some
        split: ColorChannel.splits)
next
  case (Some x)
  show ?thesis
  proof (cases yc)
    case None
    with Some show ?thesis
      by (simp add: resolveChannels_Some_None split: ColorChannel.splits)
  next
    case (Some y)
    with \<open>xc = Some x\<close> show ?thesis
      by (cases x; cases y) (simp_all add: resolveChannels_Some_Some)
  qed
qed

text \<open>
  C2, as amended. Resolution never rejects its input and always yields some \<open>zChannel\<close>.
  When at least one of \<open>xChannel\<close> and \<open>yChannel\<close> is absent, or when both are supplied as
  two different members of \<open>{red, green, blue}\<close>, the resolved channels are different and
  \<open>zChannel\<close> is the remaining member of \<open>{red, green, blue}\<close>. When both are supplied
  they are used as given, without a check.
\<close>

theorem resolveChannels_disjoint_triple:
  assumes "xc = None \<or> yc = None
           \<or> (xc \<noteq> yc \<and> xc \<in> Some ` set RGBSet \<and> yc \<in> Some ` set RGBSet)"
    and "r = resolveChannels xc yc"
  shows "xChannel r \<noteq> yChannel r
       \<and> (\<exists>z. zChannel r = Some z \<and> z \<noteq> xChannel r \<and> z \<noteq> yChannel r
              \<and> {xChannel r, yChannel r, z} = {red, green, blue})
       \<and> zChannel (resolveChannels xc' yc') \<noteq> None
       \<and> xChannel (resolveChannels (Some x) (Some y)) = x
       \<and> yChannel (resolveChannels (Some x) (Some y)) = y"
proof -
  have "xChannel r \<noteq> yChannel r
       \<and> (\<exists>z. zChannel r = Some z \<and> z \<noteq> xChannel r \<and> z \<noteq> yChannel r
              \<and> {xChannel r, yChannel r, z} = {red, green, blue})"
  proof (cases xc)
    case None
    then show ?thesis
      unfolding assms(2)
      by (cases yc) (auto simp add: resolveChannels_None_None resolveChannels_None_Some
          split: ColorChannel.splits)
  next
    case (Some x)
    show ?thesis
    proof (cases yc)
      case None
      with Some show ?thesis
        unfolding assms(2)
        by (auto simp add: resolveChannels_Some_None split: ColorChannel.splits)
    next
      case (Some y)
      with \<open>xc = Some x\<close> assms(1) show ?thesis
        unfolding assms(2)
        by (auto simp add: resolveChannels_Some_Some RGBSet_def)
    qed
  qed
  then show ?thesis
    by (simp add: zChannel_defined resolveChannels_Some_Some)
qed

theorem resolveChannels_disjoint_triple_witness:
  "xChannel (resolveChannels (Some green) None) = blue
   \<and> yChannel (resolveChannels (Some green) None) = green
   \<and> zChannel (resolveChannels (Some green) None) = Some red
   \<and> xChannel (resolveChannels (Some green) None) \<noteq> yChannel (resolveChannels (Some green) None)
   \<and> zChannel (resolveChannels (Some hue) (Some hue)) \<noteq> None"
  using resolveChannels_disjoint_triple[where xc = "Some green" and yc = None
      and xc' = "Some hue" and yc' = "Some hue", OF _ refl]
  by (simp add: resolveChannels_Some_None)

text \<open>
  C2 as stated fails when both channels are supplied: nothing compares them, so the same
  channel on both axes is kept.
\<close>

theorem resolveChannels_same_channel_kept:
  "xChannel (resolveChannels (Some red) (Some red)) = yChannel (resolveChannels (Some red) (Some red))
   \<and> resolveChannels (Some red) (Some red)
       = \<lparr>xChannel = red, yChannel = red, zChannel = Some green\<rparr>"
  by (simp add: resolveChannels_def RGBSet_def difference_def)

text \<open>
  C8. The lookup, for every channel name. With \<open>xChannel\<close> absent: red gives blue, green
  gives blue, blue gives red, and any other or no \<open>yChannel\<close> gives \<open>x = blue\<close>, \<open>y = green\<close>.
  With \<open>yChannel\<close> absent, the spec's symmetric mapping: red gives green, blue gives red,
  and any other \<open>xChannel\<close> gives \<open>x = blue\<close>, \<open>y = green\<close>. \<open>zChannel\<close> is the remaining
  member of \<open>{red, green, blue}\<close>.
\<close>

theorem resolveChannels_lookup:
  "resolveChannels None (Some red) = \<lparr>xChannel = blue, yChannel = red, zChannel = Some green\<rparr>
   \<and> resolveChannels None (Some green) = \<lparr>xChannel = blue, yChannel = green, zChannel = Some red\<rparr>
   \<and> resolveChannels None (Some blue) = \<lparr>xChannel = red, yChannel = blue, zChannel = Some green\<rparr>
   \<and> resolveChannels None (Some hue) = \<lparr>xChannel = blue, yChannel = green, zChannel = Some red\<rparr>
   \<and> resolveChannels None (Some saturation) = \<lparr>xChannel = blue, yChannel = green, zChannel = Some red\<rparr>
   \<and> resolveChannels None (Some brightness) = \<lparr>xChannel = blue, yChannel = green, zChannel = Some red\<rparr>
   \<and> resolveChannels None (Some lightness) = \<lparr>xChannel = blue, yChannel = green, zChannel = Some red\<rparr>
   \<and> resolveChannels None (Some alpha) = \<lparr>xChannel = blue, yChannel = green, zChannel = Some red\<rparr>
   \<and> resolveChannels None None = \<lparr>xChannel = blue, yChannel = green, zChannel = Some red\<rparr>
   \<and> resolveChannels (Some red) None = \<lparr>xChannel = red, yChannel = green, zChannel = Some blue\<rparr>
   \<and> resolveChannels (Some blue) None = \<lparr>xChannel = blue, yChannel = red, zChannel = Some green\<rparr>
   \<and> resolveChannels (Some green) None = \<lparr>xChannel = blue, yChannel = green, zChannel = Some red\<rparr>
   \<and> resolveChannels (Some hue) None = \<lparr>xChannel = blue, yChannel = green, zChannel = Some red\<rparr>
   \<and> resolveChannels (Some saturation) None = \<lparr>xChannel = blue, yChannel = green, zChannel = Some red\<rparr>
   \<and> resolveChannels (Some brightness) None = \<lparr>xChannel = blue, yChannel = green, zChannel = Some red\<rparr>
   \<and> resolveChannels (Some lightness) None = \<lparr>xChannel = blue, yChannel = green, zChannel = Some red\<rparr>
   \<and> resolveChannels (Some alpha) None = \<lparr>xChannel = blue, yChannel = green, zChannel = Some red\<rparr>"
  by (simp add: resolveChannels_None_None resolveChannels_None_Some resolveChannels_Some_None)

subsection \<open>Stepping\<close>

lemma negativeStepState_values:
  "xChannel (channels negativeStepState) = red"
  "xValue negativeStepState = 250" "xChannelStep negativeStepState = - 251"
  "color negativeStepState = exampleColor" "emitted negativeStepCells = []"
  "value (props negativeStepState) = None"
  by (simp_all add: negativeStepState_def negativeStepCells_def negativeStepProps_def
      example_defs Let_def)

text \<open>
  C6, as amended. For each of the four stepping methods the applied step is
  \<open>max(minStepSize, axisStep)\<close>. The method does nothing when the current value is already
  at or beyond the boundary in its direction (the strict comparison fails); otherwise it
  commits, through \<open>setColor\<close>, the rendered color with the channel set to the stepped
  value cut off at that boundary, so the new value never passes the boundary in the
  direction of the call. \<open>setColor\<close> notifies the change and, for an uncontrolled color
  area, stores the color. When the current value lies within the range and the applied
  step is not negative, the new value lies in \<open>[minValue, maxValue]\<close>.
\<close>

theorem stepping_clamps_at_boundary:
  assumes rx: "rx = getChannelRange (color st) (xChannel (channels st))"
    and ry: "ry = getChannelRange (color st) (yChannel (channels st))"
    and sx: "sx = max m (xChannelStep st)"
    and sy: "sy = max m (yChannelStep st)"
  shows "incrementX st m hs =
           (if xValue st < maxValue rx
            then setColor st (withChannelValue (color st) (xChannel (channels st))
                   (min (xValue st + sx) (maxValue rx))) hs
            else hs)
       \<and> incrementY st m hs =
           (if yValue st < maxValue ry
            then setColor st (withChannelValue (color st) (yChannel (channels st))
                   (min (yValue st + sy) (maxValue ry))) hs
            else hs)
       \<and> decrementX st m hs =
           (if minValue rx < xValue st
            then setColor st (withChannelValue (color st) (xChannel (channels st))
                   (max (xValue st - sx) (minValue rx))) hs
            else hs)
       \<and> decrementY st m hs =
           (if minValue ry < yValue st
            then setColor st (withChannelValue (color st) (yChannel (channels st))
                   (max (yValue st - sy) (minValue ry))) hs
            else hs)
       \<and> emitted (setColor st c hs) = emitted hs @ [Change c]
       \<and> (value (props st) = None \<longrightarrow> stateValue (setColor st c hs) = c)
       \<and> getChannelValue (withChannelValue c ch v) ch = v
       \<and> min (xValue st + sx) (maxValue rx) \<le> maxValue rx
       \<and> min (yValue st + sy) (maxValue ry) \<le> maxValue ry
       \<and> minValue rx \<le> max (xValue st - sx) (minValue rx)
       \<and> minValue ry \<le> max (yValue st - sy) (minValue ry)
       \<and> (minValue rx \<le> xValue st \<and> xValue st \<le> maxValue rx \<and> 0 \<le> sx \<longrightarrow>
            minValue rx \<le> min (xValue st + sx) (maxValue rx)
          \<and> max (xValue st - sx) (minValue rx) \<le> maxValue rx)
       \<and> (minValue ry \<le> yValue st \<and> yValue st \<le> maxValue ry \<and> 0 \<le> sy \<longrightarrow>
            minValue ry \<le> min (yValue st + sy) (maxValue ry)
          \<and> max (yValue st - sy) (minValue ry) \<le> maxValue ry)"
proof -
  have ix: "incrementX st m hs =
           (if xValue st < maxValue rx
            then setColor st (withChannelValue (color st) (xChannel (channels st))
                   (min (xValue st + sx) (maxValue rx))) hs
            else hs)"
    using rx sx by (simp add: incrementX_def setXValue_def Let_def)
  have iy: "incrementY st m hs =
           (if yValue st < maxValue ry
            then setColor st (withChannelValue (color st) (yChannel (channels st))
                   (min (yValue st + sy) (maxValue ry))) hs
            else hs)"
    using ry sy by (simp add: incrementY_def setYValue_def Let_def)
  have dx: "decrementX st m hs =
           (if minValue rx < xValue st
            then setColor st (withChannelValue (color st) (xChannel (channels st))
                   (max (xValue st - sx) (minValue rx))) hs
            else hs)"
    using rx sx by (simp add: decrementX_def setXValue_def Let_def)
  have dy: "decrementY st m hs =
           (if minValue ry < yValue st
            then setColor st (withChannelValue (color st) (yChannel (channels st))
                   (max (yValue st - sy) (minValue ry))) hs
            else hs)"
    using ry sy by (simp add: decrementY_def setYValue_def Let_def)
  have collab: "emitted (setColor st c hs) = emitted hs @ [Change c]"
    "value (props st) = None \<longrightarrow> stateValue (setColor st c hs) = c"
    "getChannelValue (withChannelValue c ch v) ch = v"
    by (simp_all add: setColor_def getChannelValue_def withChannelValue_def)
  have bounds: "min (xValue st + sx) (maxValue rx) \<le> maxValue rx"
    "min (yValue st + sy) (maxValue ry) \<le> maxValue ry"
    "minValue rx \<le> max (xValue st - sx) (minValue rx)"
    "minValue ry \<le> max (yValue st - sy) (minValue ry)"
    by simp_all
  have inx: "minValue rx \<le> xValue st \<and> xValue st \<le> maxValue rx \<and> 0 \<le> sx \<longrightarrow>
            minValue rx \<le> min (xValue st + sx) (maxValue rx)
          \<and> max (xValue st - sx) (minValue rx) \<le> maxValue rx"
    by simp
  have iny: "minValue ry \<le> yValue st \<and> yValue st \<le> maxValue ry \<and> 0 \<le> sy \<longrightarrow>
            minValue ry \<le> min (yValue st + sy) (maxValue ry)
          \<and> max (yValue st - sy) (minValue ry) \<le> maxValue ry"
    by simp
  from ix iy dx dy collab bounds inx iny show ?thesis by blast
qed

text \<open>
  The theorem at the example color: with \<open>minStepSize = 10\<close>, red \<open>250\<close> is stepped to
  \<open>255\<close> and \<open>240\<close>, green \<open>100\<close> to \<open>110\<close> and \<open>90\<close>; with \<open>minStepSize = -5\<close> the applied
  step is the axis step \<open>1\<close> and red is stepped to \<open>251\<close>.
\<close>

theorem stepping_clamps_at_boundary_witness:
  "minValue (getChannelRange (color exampleState) (xChannel (channels exampleState))) \<le> xValue exampleState
   \<and> xValue exampleState \<le> maxValue (getChannelRange (color exampleState) (xChannel (channels exampleState)))
   \<and> minValue (getChannelRange (color exampleState) (yChannel (channels exampleState))) \<le> yValue exampleState
   \<and> yValue exampleState \<le> maxValue (getChannelRange (color exampleState) (yChannel (channels exampleState)))
   \<and> value (props exampleState) = None
   \<and> max 10 (xChannelStep exampleState) = 10 \<and> (0::real) \<le> 10
   \<and> max (- 5) (xChannelStep exampleState) = 1 \<and> (0::real) \<le> 1
   \<and> incrementX exampleState 10 exampleCells
       = setColor exampleState (withChannelValue exampleColor red 255) exampleCells
   \<and> decrementX exampleState 10 exampleCells
       = setColor exampleState (withChannelValue exampleColor red 240) exampleCells
   \<and> incrementY exampleState 10 exampleCells
       = setColor exampleState (withChannelValue exampleColor green 110) exampleCells
   \<and> decrementY exampleState 10 exampleCells
       = setColor exampleState (withChannelValue exampleColor green 90) exampleCells
   \<and> incrementX exampleState (- 5) exampleCells
       = setColor exampleState (withChannelValue exampleColor red 251) exampleCells
   \<and> stateValue (setColor exampleState (withChannelValue exampleColor red 251) exampleCells)
       = withChannelValue exampleColor red 251
   \<and> emitted (setColor exampleState (withChannelValue exampleColor red 251) exampleCells)
       = [Change (withChannelValue exampleColor red 251)]"
proof -
  have u: "value (props exampleState) = None"
    by (simp add: example_defs Let_def)
  from stepping_clamps_at_boundary[where st = exampleState and m = 10 and hs = exampleCells
      and c = "withChannelValue exampleColor red 251", OF refl refl refl refl]
    stepping_clamps_at_boundary[where st = exampleState and m = "- 5" and hs = exampleCells
      and c = "withChannelValue exampleColor red 251", OF refl refl refl refl]
    u
  show ?thesis
    by (simp add: exampleState_values exampleColor_ranges)
qed

text \<open>
  C6 as stated fails for a negative step: with an axis step of \<open>-251\<close> supplied and
  \<open>incrementX(-251)\<close>, the red value \<open>250\<close> of the range \<open>0\<close> to \<open>255\<close> becomes \<open>-1\<close>.
  \<open>Math.min\<close> cuts off at the maximum only, so nothing keeps the new value above the
  minimum.
\<close>

theorem stepping_negative_step_leaves_range:
  "xValue negativeStepState = 250
   \<and> minValue (getChannelRange (color negativeStepState) (xChannel (channels negativeStepState))) = 0
   \<and> maxValue (getChannelRange (color negativeStepState) (xChannel (channels negativeStepState))) = 255
   \<and> max (- 251) (xChannelStep negativeStepState) = - 251
   \<and> emitted (incrementX negativeStepState (- 251) negativeStepCells)
       = [Change (withChannelValue exampleColor red (- 1))]
   \<and> getChannelValue (stateValue (incrementX negativeStepState (- 251) negativeStepCells)) red = - 1"
  by (simp add: negativeStepState_values exampleColor_ranges incrementX_def setXValue_def
      setColor_def Let_def getChannelValue_with)

text \<open>
  C7, as amended. For an uncontrolled color area whose x value \<open>v\<close> and applied step
  \<open>s = max(minStepSize, axisStep) \<ge> 0\<close> are integers, with a range inside \<open>[-2^53, 2^53]\<close>
  (so that the sum and the difference of the doubles are exact) and \<open>v\<close> at or above the
  minimum, \<open>incrementX\<close> followed, after the re-render, by \<open>decrementX\<close> with the same
  \<open>minStepSize\<close> returns the x channel to \<open>v\<close> whenever the increment is not cut off at the
  maximum, that is when \<open>v + s \<le> maxValue\<close>.
\<close>

theorem increment_then_decrement_returns:
  assumes unc: "value ps = None"
    and st: "st = fst (useColorAreaState ps hs)"
    and r: "r = getChannelRange (color st) (xChannel (channels st))"
    and s: "s = max m (xChannelStep st)"
    and vi: "xValue st \<in> \<int>"
    and si: "s \<in> \<int>"
    and lo: "- (2 ^ 53) \<le> minValue r" "minValue r \<le> xValue st"
    and hi: "xValue st + s \<le> maxValue r" "maxValue r \<le> 2 ^ 53"
    and s0: "0 \<le> s"
  shows "incrementThenDecrementX ps m hs = xValue st"
  using unc st r s lo(2) hi(1) s0
  by (auto simp add: incrementThenDecrementX_def useColorAreaState_def getChannelValue_def
      getChannelRange_def withChannelValue_def setColor_def setXValue_def incrementX_def
      decrementX_def Let_def max_def min_def split: if_splits)

text \<open>
  The theorem at the example color with \<open>minStepSize = 5\<close>: red goes from \<open>250\<close> to \<open>255\<close>
  and back to \<open>250\<close>.
\<close>

theorem increment_then_decrement_returns_witness:
  "value exampleProps = None
   \<and> xValue exampleState \<in> \<int>
   \<and> max 5 (xChannelStep exampleState) \<in> \<int>
   \<and> - (2 ^ 53) \<le> minValue (getChannelRange (color exampleState) (xChannel (channels exampleState)))
   \<and> minValue (getChannelRange (color exampleState) (xChannel (channels exampleState))) \<le> xValue exampleState
   \<and> xValue exampleState + max 5 (xChannelStep exampleState)
       \<le> maxValue (getChannelRange (color exampleState) (xChannel (channels exampleState)))
   \<and> maxValue (getChannelRange (color exampleState) (xChannel (channels exampleState))) \<le> 2 ^ 53
   \<and> 0 \<le> max 5 (xChannelStep exampleState)
   \<and> xValue exampleState = 250
   \<and> incrementThenDecrementX exampleProps 5 (mount exampleColor exampleProps) = 250"
proof -
  have st: "exampleState = fst (useColorAreaState exampleProps (mount exampleColor exampleProps))"
    by (simp add: exampleState_def)
  have u: "value exampleProps = None"
    by (simp add: exampleProps_def)
  have h:
    "xValue exampleState \<in> \<int>"
    "max 5 (xChannelStep exampleState) \<in> \<int>"
    "- (2 ^ 53) \<le> minValue (getChannelRange (color exampleState) (xChannel (channels exampleState)))"
    "minValue (getChannelRange (color exampleState) (xChannel (channels exampleState))) \<le> xValue exampleState"
    "xValue exampleState + max 5 (xChannelStep exampleState)
       \<le> maxValue (getChannelRange (color exampleState) (xChannel (channels exampleState)))"
    "maxValue (getChannelRange (color exampleState) (xChannel (channels exampleState))) \<le> 2 ^ 53"
    "0 \<le> max 5 (xChannelStep exampleState)"
    by (simp_all add: exampleState_values exampleColor_ranges)
  from increment_then_decrement_returns[OF u st refl refl h] u h
  show ?thesis by (simp add: exampleState_values)
qed

text \<open>
  C7 as stated fails for a value within one step of the maximum that is not at a
  boundary: the x value \<open>250\<close> of the range \<open>0\<close> to \<open>255\<close>, stepped by \<open>10\<close>, is cut off
  at \<open>255\<close> and comes back as \<open>245\<close>.
\<close>

theorem increment_then_decrement_near_maximum:
  "xValue exampleState = 250
   \<and> minValue (getChannelRange (color exampleState) (xChannel (channels exampleState))) = 0
   \<and> maxValue (getChannelRange (color exampleState) (xChannel (channels exampleState))) = 255
   \<and> incrementThenDecrementX exampleProps 10 (mount exampleColor exampleProps) = 245"
  by (simp add: exampleState_values exampleColor_ranges)
     (simp add: incrementThenDecrementX_def example_defs withChannelValue_def setColor_def
        setXValue_def incrementX_def decrementX_def Let_def)

subsection \<open>Step defaults\<close>

text \<open>
  C9, as amended. When \<open>xChannelStep\<close> (respectively \<open>yChannelStep\<close>) is not provided,
  the axis step is \<open>1\<close>. The channel's own step, as reported by the color's channel range,
  is used only when a step of \<open>0\<close> is supplied; any other supplied step is used as given.
\<close>

theorem axis_step_default:
  "xChannelStep (fst (useColorAreaState ps hs)) =
     (case xChannelStepProp ps of
        None \<Rightarrow> 1
      | Some v \<Rightarrow>
          if v = 0
          then step (getChannelRange (color (fst (useColorAreaState ps hs)))
                 (xChannel (channels (fst (useColorAreaState ps hs)))))
          else v)
   \<and> yChannelStep (fst (useColorAreaState ps hs)) =
     (case yChannelStepProp ps of
        None \<Rightarrow> 1
      | Some v \<Rightarrow>
          if v = 0
          then step (getChannelRange (color (fst (useColorAreaState ps hs)))
                 (yChannel (channels (fst (useColorAreaState ps hs)))))
          else v)"
  by (simp add: useColorAreaState_def Let_def split: option.splits)

text \<open>
  C9 as stated fails where the channel's own step is not \<open>1\<close>: with alpha on the x axis
  and no step supplied, the axis step is \<open>1\<close> while the alpha channel's step is \<open>0.01\<close>.
\<close>

theorem axis_step_not_intrinsic:
  "xChannelStepProp alphaProps = None
   \<and> xChannel (channels (fst (useColorAreaState alphaProps (mount exampleColor alphaProps)))) = alpha
   \<and> xChannelStep (fst (useColorAreaState alphaProps (mount exampleColor alphaProps))) = 1
   \<and> step (getChannelRange (color (fst (useColorAreaState alphaProps (mount exampleColor alphaProps))))
        alpha) = 1 / 100"
  by (simp add: example_defs Let_def)

subsection \<open>Dragging\<close>

text \<open>
  C5 at the failing input. The component is mounted with an \<open>onChangeEnd\<close> callback;
  \<open>setDragging(true)\<close> is called, the component renders again, and \<open>setDragging(false)\<close>
  is called on the new object. The local variable of line 125 is \<open>false\<close> again in the
  new render, so the callback is not called.
\<close>

theorem drag_end_lost_after_render:
  "onChangeEnd exampleProps
   \<and> emitted (dragThenRelease exampleProps (mount exampleColor exampleProps)) = []"
  by (simp add: dragThenRelease_def useColorAreaState_def setDragging_def mount_def Let_def
      exampleProps_def)

text \<open>
  On the object of a single render the flag is kept: \<open>setDragging(true)\<close> followed by
  \<open>setDragging(false)\<close> calls the callback once, with the value of \<open>valueRef\<close>, and
  \<open>setDragging(false)\<close> alone calls nothing.
\<close>

lemma drag_end_within_one_render:
  assumes "onChangeEnd (props st)"
  shows "emitted (snd (setDragging (fst (setDragging st True hs)) False
                         (snd (setDragging st True hs))))
           = emitted hs @ [ChangeEnd (valueRef hs)]"
    and "\<not> isDraggingRef st \<Longrightarrow> emitted (snd (setDragging st False hs)) = emitted hs"
  using assms by (simp_all add: setDragging_def Let_def)

section \<open>Properties of the submenu trigger\<close>

subsection \<open>The timer discipline is an invariant\<close>

lemma timer_inv_init: "timer_inv (init dir)"
  by (simp add: timer_inv_def init_def)

lemma cancel_clears:
  "timer_inv w \<Longrightarrow> timers (cancelOpenTimeout w) = [] \<and> openTimeout (cancelOpenTimeout w) = None"
  by (cases "timers w")
     (auto simp add: timer_inv_def cancelOpenTimeout_def clearTimeout_def split: option.splits)

lemma cancel_frame:
  "state (cancelOpenTimeout w) = state w \<and> direction (cancelOpenTimeout w) = direction w
   \<and> nextHandle (cancelOpenTimeout w) = nextHandle w \<and> now (cancelOpenTimeout w) = now w"
  by (simp add: cancelOpenTimeout_def clearTimeout_def split: option.splits)

lemma timer_inv_cancel: "timer_inv w \<Longrightarrow> timer_inv (cancelOpenTimeout w)"
  using cancel_clears[of w] cancel_frame[of w] by (simp add: timer_inv_def)

lemma open_state:
  "isOpen (state (onSubmenuOpen fs w)) \<and> focusStrategy (state (onSubmenuOpen fs w)) = fs
   \<and> ancestorsOpen (state (onSubmenuOpen fs w)) = ancestorsOpen (state w)"
  using cancel_frame[of w] by (simp add: onSubmenuOpen_def Let_def state_open_def)

lemma open_clears:
  "timer_inv w \<Longrightarrow> timers (onSubmenuOpen fs w) = [] \<and> openTimeout (onSubmenuOpen fs w) = None"
  using cancel_clears[of w] by (simp add: onSubmenuOpen_def Let_def)

lemma open_frame:
  "direction (onSubmenuOpen fs w) = direction w \<and> nextHandle (onSubmenuOpen fs w) = nextHandle w
   \<and> now (onSubmenuOpen fs w) = now w"
  using cancel_frame[of w] by (simp add: onSubmenuOpen_def Let_def)

lemma timer_inv_open: "timer_inv w \<Longrightarrow> timer_inv (onSubmenuOpen fs w)"
  using open_clears[of w fs] open_frame[of fs w] by (simp add: timer_inv_def)

lemma close_clears:
  "timer_inv w \<Longrightarrow> timers (onSubMenuClose w) = [] \<and> openTimeout (onSubMenuClose w) = None"
  using cancel_clears[of w] by (simp add: onSubMenuClose_def Let_def)

lemma close_state:
  "\<not> isOpen (state (onSubMenuClose w))
   \<and> ancestorsOpen (state (onSubMenuClose w)) = ancestorsOpen (state w)"
  using cancel_frame[of w] by (simp add: onSubMenuClose_def Let_def state_close_def)

lemma timer_inv_close: "timer_inv w \<Longrightarrow> timer_inv (onSubMenuClose w)"
  using close_clears[of w] cancel_frame[of w] by (simp add: timer_inv_def onSubMenuClose_def Let_def)

lemma timer_inv_hover: "timer_inv w \<Longrightarrow> timer_inv (onHoverChange b w)"
  by (auto simp add: onHoverChange_def timer_inv_cancel)
     (auto simp add: timer_inv_def truthy_def setTimeout_def split: option.splits)

lemma timer_inv_continue: "timer_inv w \<Longrightarrow> timer_inv (continuePropagation w)"
  by (simp add: timer_inv_def continuePropagation_def split: option.splits)

lemma timer_inv_subMenuKeyDown: "timer_inv w \<Longrightarrow> timer_inv (subMenuKeyDown k w)"
  by (auto simp add: subMenuKeyDown_def timer_inv_close timer_inv_continue)
     (auto simp add: timer_inv_def state_closeAll_def split: option.splits)

lemma timer_inv_triggerKeyDown: "timer_inv w \<Longrightarrow> timer_inv (triggerKeyDown k w)"
  by (simp add: triggerKeyDown_def Let_def timer_inv_continue timer_inv_open)

lemma timer_inv_press: "timer_inv w \<Longrightarrow> timer_inv (onPressStart p w) \<and> timer_inv (onPress p w)"
  by (simp add: onPressStart_def onPress_def timer_inv_open)

text \<open>
  Letting time pass either only moves the clock, or runs the single pending timer, which
  is due.
\<close>

lemma advance_cases:
  assumes "timer_inv w"
  shows "advance d w = w\<lparr>now := now w + d\<rparr>
       \<or> (\<exists>h t. timers w = [(h, t)] \<and> t \<le> now w + d
            \<and> advance d w = onSubmenuOpen None (w\<lparr>now := now w + d, timers := []\<rparr>))"
proof (cases "openTimeout w")
  case None
  with assms have "timers w = []" by (simp add: timer_inv_def)
  then show ?thesis by (simp add: advance_def Let_def)
next
  case (Some h)
  with assms obtain t where t: "timers w = [(h, t)]"
    by (cases "timers w") (auto simp add: timer_inv_def)
  show ?thesis
  proof (cases "t \<le> now w + d")
    case True
    with t show ?thesis by (simp add: advance_def Let_def fireTimer_def)
  next
    case False
    with t show ?thesis by (simp add: advance_def Let_def)
  qed
qed

lemma timer_inv_advance:
  assumes "timer_inv w"
  shows "timer_inv (advance d w)"
proof -
  from advance_cases[OF assms, of d] show ?thesis
  proof
    assume "advance d w = w\<lparr>now := now w + d\<rparr>"
    with assms show ?thesis by (simp add: timer_inv_def split: option.splits)
  next
    assume "\<exists>h t. timers w = [(h, t)] \<and> t \<le> now w + d
            \<and> advance d w = onSubmenuOpen None (w\<lparr>now := now w + d, timers := []\<rparr>)"
    then have a: "advance d w = onSubmenuOpen None (w\<lparr>now := now w + d, timers := []\<rparr>)"
      by blast
    from assms show ?thesis
      unfolding a
      by (auto simp add: timer_inv_def onSubmenuOpen_def cancelOpenTimeout_def clearTimeout_def
          state_open_def Let_def split: option.splits)
  qed
qed

lemma timer_inv_handle: "timer_inv w \<Longrightarrow> timer_inv (handle e w)"
  by (cases e)
     (simp_all add: timer_inv_hover timer_inv_press timer_inv_triggerKeyDown
        timer_inv_subMenuKeyDown unmount_def timer_inv_cancel timer_inv_advance)

lemma run_Nil: "run [] w = w"
  by (simp add: run_def)

lemma run_Cons: "run (e # evs) w = run evs (handle e w)"
  by (simp add: run_def)

lemma run_snoc: "run (evs @ [e]) w = handle e (run evs w)"
  by (simp add: run_def)

lemma timer_inv_run: "timer_inv w \<Longrightarrow> timer_inv (run evs w)"
  by (induction evs arbitrary: w) (simp_all add: run_Nil run_Cons timer_inv_handle)

lemma timer_inv_reachable: "timer_inv (run evs (init dir))"
  by (rule timer_inv_run[OF timer_inv_init])

lemma timer_inv_at_most_one: "timer_inv w \<Longrightarrow> length (timers w) \<le> 1"
  by (cases "openTimeout w"; cases "timers w") (auto simp add: timer_inv_def)

lemma timer_inv_pending:
  "timer_inv w \<Longrightarrow> timers w \<noteq> [] \<Longrightarrow>
     \<not> isOpen (state w) \<and> map (\<lambda>p. Some (fst p)) (timers w) = [openTimeout w]"
  by (cases "openTimeout w") (auto simp add: timer_inv_def)

lemma direction_handle: "direction (handle e w) = direction w"
proof (cases e)
  case (Advance d)
  have "direction (foldl (\<lambda>v h. fireTimer h v) v hs) = direction v" for hs v
    by (induction hs arbitrary: v) (simp_all add: fireTimer_def open_frame)
  then show ?thesis using Advance by (simp add: advance_def Let_def)
qed (simp_all add: onHoverChange_def onPressStart_def onPress_def triggerKeyDown_def
      subMenuKeyDown_def unmount_def open_frame cancel_frame onSubMenuClose_def
      continuePropagation_def setTimeout_def Let_def)

lemma direction_run: "direction (run evs w) = direction w"
  by (induction evs arbitrary: w) (simp_all add: run_Nil run_Cons direction_handle)

lemma advance_no_timers: "timers w = [] \<Longrightarrow> advance d w = w\<lparr>now := now w + d\<rparr>"
  by (simp add: advance_def Let_def)

lemma waiting_no_timers:
  "timers w = [] \<Longrightarrow> timers (run (map Advance ds) w) = []
     \<and> state (run (map Advance ds) w) = state w"
  by (induction ds arbitrary: w) (simp_all add: run_Nil run_Cons advance_no_timers)

subsection \<open>Arming and cancelling\<close>

lemma arm_only_on_hover:
  assumes "timer_inv w"
  shows "set (timers (handle e w)) \<subseteq> set (timers w)
       \<or> (e = HoverChange True \<and> \<not> isOpen (state w) \<and> timers w = []
           \<and> timers (handle e w) = [(nextHandle w, now w + 200)])"
proof (cases e)
  case (HoverChange b)
  with assms show ?thesis
    using cancel_clears[OF assms]
    by (auto simp add: onHoverChange_def timer_inv_def truthy_def setTimeout_def split: option.splits)
next
  case (PressStart p)
  then show ?thesis using open_clears[OF assms] by (simp add: onPressStart_def)
next
  case (Press p)
  then show ?thesis using open_clears[OF assms] by (simp add: onPress_def)
next
  case (TriggerKeyDown k)
  then show ?thesis using open_clears[OF assms]
    by (simp add: triggerKeyDown_def Let_def continuePropagation_def open_frame)
next
  case (SubMenuKeyDown k)
  then show ?thesis using close_clears[OF assms]
    by (simp add: subMenuKeyDown_def continuePropagation_def)
next
  case Unmount
  then show ?thesis using cancel_clears[OF assms] by (simp add: unmount_def)
next
  case (Advance d)
  from advance_cases[OF assms, of d] show ?thesis
  proof
    assume "advance d w = w\<lparr>now := now w + d\<rparr>"
    with Advance show ?thesis by simp
  next
    assume "\<exists>h t. timers w = [(h, t)] \<and> t \<le> now w + d
            \<and> advance d w = onSubmenuOpen None (w\<lparr>now := now w + d, timers := []\<rparr>)"
    then have a: "advance d w = onSubmenuOpen None (w\<lparr>now := now w + d, timers := []\<rparr>)"
      by blast
    have "timers (onSubmenuOpen None (w\<lparr>now := now w + d, timers := []\<rparr>)) = []"
      by (simp add: onSubmenuOpen_def cancelOpenTimeout_def clearTimeout_def Let_def
          split: option.splits)
    with a Advance show ?thesis by simp
  qed
qed

lemma cancelling_clears:
  assumes "timer_inv w" "cancelling (direction w) e"
  shows "timers (handle e w) = [] \<and> openTimeout (handle e w) = None"
proof -
  have d: "direction w = ltr \<or> direction w = rtl" by (cases "direction w") simp_all
  from assms(2) d show ?thesis
    using cancel_clears[OF assms(1)] open_clears[OF assms(1)] close_clears[OF assms(1)]
    by (auto simp add: cancelling_def onHoverChange_def onPressStart_def onPress_def unmount_def
        triggerKeyDown_def subMenuKeyDown_def Let_def continuePropagation_def open_frame)
qed

lemma leaving_keeps_state:
  "state (handle (HoverChange False) w) = state w \<and> state (handle Unmount w) = state w"
  by (simp add: onHoverChange_def unmount_def cancel_frame)

lemma hover_exit_prevents_open:
  assumes inv: "timer_inv w" and idle: "timers w = []" and closed: "\<not> isOpen (state w)"
    and d: "d < 200"
  shows "\<not> isOpen (state (run [HoverChange True, Advance d, HoverChange False, Advance d'] w))"
proof -
  from inv idle have none: "openTimeout w = None"
    by (auto simp add: timer_inv_def split: option.splits)
  define w1 where "w1 = onHoverChange True w"
  have w1: "timers w1 = [(nextHandle w, now w + 200)]" "\<not> isOpen (state w1)" "now w1 = now w"
    using none closed idle by (simp_all add: w1_def onHoverChange_def truthy_def setTimeout_def)
  have i1: "timer_inv w1" unfolding w1_def by (rule timer_inv_hover[OF inv])
  define w2 where "w2 = advance d w1"
  have w2: "w2 = w1\<lparr>now := now w1 + d\<rparr>"
    using w1 d by (simp add: w2_def advance_def Let_def)
  have i2: "timer_inv w2" unfolding w2_def by (rule timer_inv_advance[OF i1])
  define w3 where "w3 = onHoverChange False w2"
  have w3: "timers w3 = []" "\<not> isOpen (state w3)"
    using cancel_clears[OF i2] cancel_frame[of w2] w1 w2 by (simp_all add: w3_def onHoverChange_def)
  have "advance d' w3 = w3\<lparr>now := now w3 + d'\<rparr>" by (rule advance_no_timers[OF w3(1)])
  with w3 show ?thesis by (simp add: run_def w3_def w2_def w1_def)
qed

lemma hover_opens_after_delay:
  assumes inv: "timer_inv w" and idle: "timers w = []" and closed: "\<not> isOpen (state w)"
    and d: "200 \<le> d"
  shows "isOpen (state (run [HoverChange True, Advance d] w))"
proof -
  from inv idle have none: "openTimeout w = None"
    by (auto simp add: timer_inv_def split: option.splits)
  define w1 where "w1 = onHoverChange True w"
  have w1: "timers w1 = [(nextHandle w, now w + 200)]" "now w1 = now w"
    using none closed idle by (simp_all add: w1_def onHoverChange_def truthy_def setTimeout_def)
  have "isOpen (state (advance d w1))"
    using w1 d by (simp add: advance_def Let_def fireTimer_def open_state)
  then show ?thesis by (simp add: run_def w1_def)
qed

subsection \<open>The open-delay timer\<close>

text \<open>
  C3. In every state \<open>w\<close> that a sequence of hover, press, keyboard, unmount and
  time-passing events reaches from the initial state: at most one open-delay timer is
  pending, and a pending timer is the one whose handle the ref holds, with the submenu
  closed. An event arms a new timer only if it is a hover-enter while the submenu is closed
  and no timer is pending. Every event that leaves the waiting state (hover-exit, an
  immediate open by keyboard, screen reader or touch, the close key, unmount) leaves no
  timer pending, so that however much time passes after a hover-exit or an unmount the
  submenu stays as it was. In particular a hover-exit less than 200 ms after the
  hover-enter prevents the open, and without it the submenu opens once 200 ms have passed.
\<close>

theorem open_timer_discipline:
  assumes w: "w = run evs (init dir)"
  shows "length (timers w) \<le> 1
       \<and> (timers w \<noteq> [] \<longrightarrow>
            \<not> isOpen (state w) \<and> map (\<lambda>p. Some (fst p)) (timers w) = [openTimeout w])
       \<and> (set (timers (handle e w)) \<subseteq> set (timers w)
            \<or> (e = HoverChange True \<and> \<not> isOpen (state w) \<and> timers w = []))
       \<and> (cancelling dir e \<longrightarrow> timers (handle e w) = [] \<and> openTimeout (handle e w) = None)
       \<and> isOpen (state (run (map Advance ds) (handle (HoverChange False) w))) = isOpen (state w)
       \<and> isOpen (state (run (map Advance ds) (handle Unmount w))) = isOpen (state w)
       \<and> (timers w = [] \<and> \<not> isOpen (state w) \<and> d < 200 \<longrightarrow>
            \<not> isOpen (state (run [HoverChange True, Advance d, HoverChange False, Advance d'] w)))
       \<and> (timers w = [] \<and> \<not> isOpen (state w) \<and> 200 \<le> d \<longrightarrow>
            isOpen (state (run [HoverChange True, Advance d] w)))"
proof -
  have inv: "timer_inv w" unfolding w by (rule timer_inv_reachable)
  have dir: "direction w = dir" unfolding w by (simp add: direction_run init_def)
  have c: "cancelling dir (HoverChange False)" "cancelling dir Unmount"
    by (simp_all add: cancelling_def)
  have p1: "length (timers w) \<le> 1" by (rule timer_inv_at_most_one[OF inv])
  have p2: "timers w \<noteq> [] \<longrightarrow>
            \<not> isOpen (state w) \<and> map (\<lambda>p. Some (fst p)) (timers w) = [openTimeout w]"
    using timer_inv_pending[OF inv] by blast
  have p3: "set (timers (handle e w)) \<subseteq> set (timers w)
            \<or> (e = HoverChange True \<and> \<not> isOpen (state w) \<and> timers w = [])"
    using arm_only_on_hover[OF inv, of e] by blast
  have p4: "cancelling dir e \<longrightarrow> timers (handle e w) = [] \<and> openTimeout (handle e w) = None"
    using cancelling_clears[OF inv, of e] dir by simp
  have p5: "isOpen (state (run (map Advance ds) (handle (HoverChange False) w))) = isOpen (state w)"
    using cancelling_clears[OF inv, of "HoverChange False"] dir c(1)
      waiting_no_timers[of "handle (HoverChange False) w" ds] leaving_keeps_state[of w]
    by simp
  have p6: "isOpen (state (run (map Advance ds) (handle Unmount w))) = isOpen (state w)"
    using cancelling_clears[OF inv, of Unmount] dir c(2)
      waiting_no_timers[of "handle Unmount w" ds] leaving_keeps_state[of w]
    by simp
  have p7: "timers w = [] \<and> \<not> isOpen (state w) \<and> d < 200 \<longrightarrow>
            \<not> isOpen (state (run [HoverChange True, Advance d, HoverChange False, Advance d'] w))"
    using hover_exit_prevents_open[OF inv] by blast
  have p8: "timers w = [] \<and> \<not> isOpen (state w) \<and> 200 \<le> d \<longrightarrow>
            isOpen (state (run [HoverChange True, Advance d] w))"
    using hover_opens_after_delay[OF inv] by blast
  from p1 p2 p3 p4 p5 p6 p7 p8 show ?thesis by blast
qed

text \<open>
  The theorem after a hover-enter and a hover-exit (no timer pending, closed): a
  hover-exit cancels; 199 ms of hovering followed by a hover-exit never opens; 200 ms
  of hovering opens. And after a hover-enter alone, one timer is pending.
\<close>

theorem open_timer_discipline_witness:
  "cancelling ltr (HoverChange False)
   \<and> timers (run [HoverChange True, HoverChange False] (init ltr)) = []
   \<and> \<not> isOpen (state (run [HoverChange True, HoverChange False] (init ltr)))
   \<and> (199::nat) < 200 \<and> (200::nat) \<le> 200
   \<and> timers (run [HoverChange True] (init ltr)) \<noteq> []
   \<and> length (timers (run [HoverChange True] (init ltr))) \<le> 1
   \<and> timers (handle (HoverChange False) (run [HoverChange True] (init ltr))) = []
   \<and> \<not> isOpen (state (run [HoverChange True, Advance 199, HoverChange False, Advance 500]
          (run [HoverChange True, HoverChange False] (init ltr))))
   \<and> isOpen (state (run [HoverChange True, Advance 200]
        (run [HoverChange True, HoverChange False] (init ltr))))"
proof -
  have a: "timers (run [HoverChange True, HoverChange False] (init ltr)) = []"
    "\<not> isOpen (state (run [HoverChange True, HoverChange False] (init ltr)))"
    by (simp_all add: run_def init_def onHoverChange_def truthy_def setTimeout_def
        cancelOpenTimeout_def clearTimeout_def)
  have b: "timers (run [HoverChange True] (init ltr)) \<noteq> []"
    by (simp add: run_def init_def onHoverChange_def truthy_def setTimeout_def)
  have c: "cancelling ltr (HoverChange False)"
    by (simp add: cancelling_def)
  from open_timer_discipline[where evs = "[HoverChange True, HoverChange False]" and dir = ltr
      and d = 199 and d' = 500, OF refl]
    open_timer_discipline[where evs = "[HoverChange True, HoverChange False]" and dir = ltr
      and d = 200, OF refl]
    open_timer_discipline[where evs = "[HoverChange True]" and dir = ltr
      and e = "HoverChange False", OF refl]
    a b c
  show ?thesis by simp
qed

subsection \<open>Keys of the open submenu\<close>

text \<open>
  C4 at the failing input: the submenu is opened from the keyboard under right-to-left
  layout and receives a keydown of \<open>ArrowRight\<close>. The handler leaves everything as it
  was, so the submenu is still open. Under left-to-right layout \<open>ArrowLeft\<close> closes this
  submenu only, and \<open>Escape\<close> closes this submenu and the menus above it.
\<close>

theorem arrowRight_rtl_leaves_submenu_open:
  "isOpen (state (run [PressStart keyboard] (init rtl)))
   \<and> handle (SubMenuKeyDown ''ArrowRight'') (run [PressStart keyboard] (init rtl))
       = run [PressStart keyboard] (init rtl)
   \<and> isOpen (state (run [PressStart keyboard, SubMenuKeyDown ''ArrowRight''] (init rtl)))
   \<and> \<not> isOpen (state (run [PressStart keyboard, SubMenuKeyDown ''ArrowLeft''] (init ltr)))
   \<and> ancestorsOpen (state (run [PressStart keyboard, SubMenuKeyDown ''ArrowLeft''] (init ltr)))
   \<and> \<not> isOpen (state (run [PressStart keyboard, SubMenuKeyDown ''Escape''] (init rtl)))
   \<and> \<not> ancestorsOpen (state (run [PressStart keyboard, SubMenuKeyDown ''Escape''] (init rtl)))"
  by (simp add: run_def init_def onPressStart_def onSubmenuOpen_def onSubMenuClose_def
      cancelOpenTimeout_def subMenuKeyDown_def state_open_def state_close_def state_closeAll_def)

subsection \<open>Press handlers\<close>

lemma hover_keeps_state: "state (onHoverChange b w) = state w"
  by (simp add: onHoverChange_def cancel_frame setTimeout_def)

lemma mouse_keeps_state: "mouseEvent e \<Longrightarrow> state (handle e w) = state w"
  by (cases e) (simp_all add: hover_keeps_state onPressStart_def onPress_def)

lemma mouse_run_keeps_state: "\<forall>e\<in>set evs. mouseEvent e \<Longrightarrow> state (run evs w) = state w"
  by (induction evs arbitrary: w) (simp_all add: run_Nil run_Cons mouse_keeps_state)

text \<open>
  C10. The press handlers open the submenu only for the pointer types \<open>virtual\<close> and
  \<open>keyboard\<close> on press-start, with focus strategy \<open>first\<close>, and for \<open>touch\<close> on press, with
  no focus strategy. For every other pointer type, \<open>mouse\<close> among them, both handlers leave
  the trigger exactly as it was. No sequence of mouse events (hover changes, mouse
  press-starts and mouse presses) changes the menu state by itself: after a mouse
  interaction the submenu opens only when the hover timer runs.
\<close>

theorem press_opens_only_for_keyboard_virtual_touch:
  "(p = virtual \<or> p = keyboard \<longrightarrow>
      isOpen (state (onPressStart p w)) \<and> focusStrategy (state (onPressStart p w)) = Some FocusFirst)
   \<and> (p \<noteq> virtual \<and> p \<noteq> keyboard \<longrightarrow> onPressStart p w = w)
   \<and> isOpen (state (onPress touch w)) \<and> focusStrategy (state (onPress touch w)) = None
   \<and> (p \<noteq> touch \<longrightarrow> onPress p w = w)
   \<and> onPressStart mouse w = w \<and> onPress mouse w = w
   \<and> ((\<forall>e\<in>set evs. mouseEvent e) \<longrightarrow> state (run evs w) = state w)
   \<and> (timer_inv w \<and> timers w = [] \<and> \<not> isOpen (state w) \<and> 200 \<le> d \<longrightarrow>
        isOpen (state (run [HoverChange True, PressStart mouse, Press mouse, Advance d] w)))"
proof -
  have a: "timer_inv w \<and> timers w = [] \<and> \<not> isOpen (state w) \<and> 200 \<le> d \<longrightarrow>
        isOpen (state (run [HoverChange True, PressStart mouse, Press mouse, Advance d] w))"
    using hover_opens_after_delay[of w d]
    by (simp add: run_def onPressStart_def onPress_def)
  show ?thesis
    using a mouse_run_keeps_state[of evs w]
    by (simp add: onPressStart_def onPress_def open_state)
qed

theorem press_opens_only_for_keyboard_virtual_touch_witness:
  "(keyboard = virtual \<or> keyboard = keyboard)
   \<and> mouse \<noteq> virtual \<and> mouse \<noteq> keyboard \<and> mouse \<noteq> touch
   \<and> list_all mouseEvent [HoverChange True, PressStart mouse, Press mouse, HoverChange False]
   \<and> timer_inv (init ltr) \<and> timers (init ltr) = [] \<and> \<not> isOpen (state (init ltr))
   \<and> (200::nat) \<le> 250
   \<and> isOpen (state (onPressStart keyboard (init ltr)))
   \<and> focusStrategy (state (onPressStart keyboard (init ltr))) = Some FocusFirst
   \<and> onPressStart mouse (init ltr) = init ltr
   \<and> onPress mouse (init ltr) = init ltr
   \<and> state (run [HoverChange True, PressStart mouse, Press mouse, HoverChange False] (init ltr))
       = state (init ltr)
   \<and> isOpen (state (run [HoverChange True, PressStart mouse, Press mouse, Advance 250] (init ltr)))"
proof -
  have h: "timer_inv (init ltr)" "timers (init ltr) = []" "\<not> isOpen (state (init ltr))"
    by (simp_all add: timer_inv_init) (simp_all add: init_def)
  from press_opens_only_for_keyboard_virtual_touch[where p = keyboard and w = "init ltr"
      and evs = "[HoverChange True, PressStart mouse, Press mouse, HoverChange False]" and d = 250]
    press_opens_only_for_keyboard_virtual_touch[where p = mouse and w = "init ltr"
      and evs = "[]" and d = 250]
    h
  show ?thesis by simp
qed

end
